theory Spec2Isabelle
  imports Complex_Main "HOL-Library.Sublist" "HOL-Library.Char_ord"
    "HOL-Library.List_Lexorder" "HOL-Library.Product_Lexorder"
begin

section \<open>Python strings\<close>

text \<open>
  A Python \<open>str\<close> is modelled as a \<^typ>\<open>string\<close>. The class names of the ontology are
  ASCII identifiers; the non-ASCII symbols of the message literals are kept as their UTF-8
  bytes. \<open>str.lower\<close> is modelled on the ASCII letters and leaves every other character
  as it is. The order on strings (\<open>sorted\<close>, tuple comparison) is the lexicographic order
  on character codes, as in Python.

  \<open>x in y\<close> on strings is \<^const>\<open>sublist\<close>, \<open>y.startswith(x)\<close> is \<^const>\<open>prefix\<close> and
  \<open>y.endswith(x)\<close> is \<^const>\<open>suffix\<close>.
\<close>

definition lower_char :: "char \<Rightarrow> char" where
  "lower_char c =
     (let n = (of_char c :: nat) in if 65 \<le> n \<and> n \<le> 90 then char_of (n + 32) else c)"

definition lower :: "string \<Rightarrow> string" where
  "lower s = map lower_char s"

section \<open>difflib.get_close_matches\<close>

datatype py_error = ValueError | TypeError

text \<open>
  \<open>heapq.nlargest(n, xs)\<close> is \<open>sorted(xs, reverse=True)[:n]\<close>.
\<close>

definition nlargest :: "nat \<Rightarrow> ('a::linorder) list \<Rightarrow> 'a list" where
  "nlargest n xs = take n (rev (sort xs))"

text \<open>
  \<open>difflib.get_close_matches(word, possibilities, n, cutoff)\<close> of the standard library:
  it raises \<open>ValueError\<close> unless \<open>n > 0\<close> and \<open>0 \<le> cutoff \<le> 1\<close>, keeps the
  possibilities \<open>x\<close> whose \<open>SequenceMatcher(a = x, b = word).ratio()\<close> reaches the cutoff, and
  returns the \<open>n\<close> largest of the pairs \<open>(ratio, x)\<close>, best first, without the scores.
  The similarity metric itself is the parameter \<open>ratio\<close>, applied as \<open>ratio x word\<close>; its
  values and the cutoffs are exact rationals.
\<close>

definition get_close_matches ::
  "(string \<Rightarrow> string \<Rightarrow> rat) \<Rightarrow> string \<Rightarrow> string list \<Rightarrow> int \<Rightarrow> rat \<Rightarrow> py_error + string list"
where
  "get_close_matches ratio word possibilities n cutoff =
     (if \<not> n > 0 then Inl ValueError
      else if \<not> (0 \<le> cutoff \<and> cutoff \<le> 1) then Inl ValueError
      else Inr (map snd (nlargest (nat n)
                  [(ratio x word, x). x \<leftarrow> possibilities, ratio x word \<ge> cutoff])))"

section \<open>difflib.SequenceMatcher.ratio\<close>

text \<open>
  The metric of the standard library, for the instances of the theorems below:
  \<open>SequenceMatcher(None, a, b).ratio()\<close> is \<open>2.0 * M / T\<close>, where \<open>T\<close> is the number of
  elements of both sequences and \<open>M\<close> the total size of the matching blocks, and \<open>1.0\<close> when
  both are empty. With \<open>autojunk\<close>, the elements of a \<open>b\<close> of at least 200 elements that
  occur more than \<open>len(b) // 100 + 1\<close> times are popular; \<open>find_longest_match\<close> looks for
  the longest common run without popular elements, the first in \<open>a\<close> and then in \<open>b\<close> among
  the longest, and extends it to the left and to the right over equal elements;
  \<open>get_matching_blocks\<close> goes on to the left and to the right of each block.
\<close>

definition popular :: "string \<Rightarrow> char list" where
  "popular b =
     (if length b \<ge> 200 then [elt \<leftarrow> remdups b. count_list b elt > length b div 100 + 1] else [])"

fun run_length :: "char list \<Rightarrow> string \<Rightarrow> string \<Rightarrow> nat" where
  "run_length pop (x # xs) (y # ys) =
     (if x = y \<and> y \<notin> set pop then Suc (run_length pop xs ys) else 0)"
| "run_length pop xs ys = 0"

fun common_prefix_length :: "string \<Rightarrow> string \<Rightarrow> nat" where
  "common_prefix_length (x # xs) (y # ys) = (if x = y then Suc (common_prefix_length xs ys) else 0)"
| "common_prefix_length xs ys = 0"

definition better_match ::
  "char list \<Rightarrow> string \<Rightarrow> string \<Rightarrow> nat \<times> nat \<times> nat \<Rightarrow> nat \<times> nat \<Rightarrow> nat \<times> nat \<times> nat"
where
  "better_match pop a b best p =
     (case best of (besti, bestj, bestsize) \<Rightarrow>
        case p of (i, j) \<Rightarrow>
          let k = run_length pop (drop i a) (drop j b) in
          if k > bestsize then (i, j, k) else (besti, bestj, bestsize))"

definition longest_run :: "char list \<Rightarrow> string \<Rightarrow> string \<Rightarrow> nat \<times> nat \<times> nat" where
  "longest_run pop a b =
     foldl (better_match pop a b) (0, 0, 0) (List.product [0..<length a] [0..<length b])"

definition find_longest_match :: "char list \<Rightarrow> string \<Rightarrow> string \<Rightarrow> nat \<times> nat \<times> nat" where
  "find_longest_match pop a b =
     (case longest_run pop a b of (besti, bestj, bestsize) \<Rightarrow>
        let ext = common_prefix_length (rev (take besti a)) (rev (take bestj b));
            i = besti - ext; j = bestj - ext; k = bestsize + ext;
            more = common_prefix_length (drop (i + k) a) (drop (j + k) b)
        in (i, j, k + more))"

function matching_size :: "char list \<Rightarrow> string \<Rightarrow> string \<Rightarrow> nat" where
  "matching_size pop a b =
     (case find_longest_match pop a b of (i, j, k) \<Rightarrow>
        if k = 0 then 0
        else k + (if 0 < i \<and> 0 < j then matching_size pop (take i a) (take j b) else 0)
               + (if i + k < length a \<and> j + k < length b
                  then matching_size pop (drop (i + k) a) (drop (j + k) b) else 0))"
  by pat_completeness auto
termination
proof -
  have run: "run_length pop xs ys \<le> length xs" for pop xs ys
    by (induction pop xs ys rule: run_length.induct) auto
  have cpl: "common_prefix_length xs ys \<le> length xs" for xs ys
    by (induction xs ys rule: common_prefix_length.induct) auto
  have step: "fst (better_match pop a b acc p) + snd (snd (better_match pop a b acc p)) \<le> length a"
    if "fst acc + snd (snd acc) \<le> length a" "fst p \<le> length a"
    for acc :: "nat \<times> nat \<times> nat" and p pop a b
  proof -
    obtain bi bj bk where acc: "acc = (bi, bj, bk)" by (cases acc) auto
    obtain i j where p: "p = (i, j)" by (cases p) auto
    have "i \<le> length a" using that(2) p by simp
    then have "i + run_length pop (drop i a) (drop j b) \<le> length a"
      using run [of pop "drop i a" "drop j b"] by simp
    with that(1) acc p show ?thesis by (simp add: better_match_def Let_def)
  qed
  have fold: "fst acc + snd (snd acc) \<le> length a \<Longrightarrow> \<forall>p \<in> set ps. fst p \<le> length a \<Longrightarrow>
      fst (foldl (better_match pop a b) acc ps) +
      snd (snd (foldl (better_match pop a b) acc ps)) \<le> length a"
    for acc :: "nat \<times> nat \<times> nat" and ps pop a b
  proof (induction ps arbitrary: acc)
    case Nil
    then show ?case by simp
  next
    case (Cons p ps)
    have "fst (better_match pop a b acc p) + snd (snd (better_match pop a b acc p)) \<le> length a"
      using Cons.prems by (intro step) auto
    then show ?case using Cons.prems(2) by (simp add: Cons.IH)
  qed
  have core: "fst (longest_run pop a b) + snd (snd (longest_run pop a b)) \<le> length a" for pop a b
    unfolding longest_run_def by (rule fold) auto
  have bound: "find_longest_match pop a b = (i, j, k) \<Longrightarrow> i + k \<le> length a" for pop a b i j k
  proof -
    assume h: "find_longest_match pop a b = (i, j, k)"
    obtain bi bj bk where c: "longest_run pop a b = (bi, bj, bk)"
      by (cases "longest_run pop a b") auto
    let ?ext = "common_prefix_length (rev (take bi a)) (rev (take bj b))"
    have b1: "?ext \<le> bi" using cpl [of "rev (take bi a)" "rev (take bj b)"] by simp
    have b2: "bi + bk \<le> length a" using core [of pop a b] c by simp
    let ?more = "common_prefix_length (drop (bi - ?ext + (bk + ?ext)) a)
        (drop (bj - ?ext + (bk + ?ext)) b)"
    have b3: "?more \<le> length a - (bi - ?ext + (bk + ?ext))"
      using cpl [of "drop (bi - ?ext + (bk + ?ext)) a" "drop (bj - ?ext + (bk + ?ext)) b"]
      by simp
    from h c have "i = bi - ?ext" "k = bk + ?ext + ?more"
      by (auto simp add: find_longest_match_def Let_def)
    with b1 b2 b3 show ?thesis by linarith
  qed
  have left: "find_longest_match pop a b = (i, j, k) \<Longrightarrow> k \<noteq> 0 \<Longrightarrow> i < length a"
    for pop a b i j k
    using bound [of pop a b i j k] by simp
  show ?thesis
    by (relation "measure (\<lambda>(pop, a, b). length a)") (auto dest: left [OF sym])
qed

definition sequence_ratio :: "string \<Rightarrow> string \<Rightarrow> rat" where
  "sequence_ratio a b =
     (if length a + length b = 0 then 1
      else 2 * of_nat (matching_size (popular b) a b) / of_nat (length a + length b))"

section \<open>The knowledge base\<close>

text \<open>
  What the functions read of an \<open>owlready2\<close> class: its name, its labels and its comments.
  An ontology is the list of its classes, in the order \<open>ontology.classes()\<close> yields them, and
  \<open>owlready2.default_world.ontologies.values()\<close> is a list of ontologies.
\<close>

record owl_class =
  name :: string
  label :: "string list"
  comment :: "string list"

type_synonym ontology = "owl_class list"

type_synonym world = "ontology list"

section \<open>The name resolver\<close>

definition get_class_candidates :: "world \<Rightarrow> string list" where
  "get_class_candidates default_world =
     sort (remdups [name cls. ontology \<leftarrow> default_world, cls \<leftarrow> ontology])"

record suggestion_result =
  type :: string
  match :: "string option"
  suggestions :: "string list"

text \<open>The slice \<open>xs[:n]\<close>, also for a negative \<open>n\<close>.\<close>

definition slice_to :: "int \<Rightarrow> 'a list \<Rightarrow> 'a list" where
  "slice_to n xs = (if 0 \<le> n then take (nat n) xs else take (length xs - nat (- n)) xs)"

definition substring_matches :: "string list \<Rightarrow> string \<Rightarrow> string list" where
  "substring_matches candidates input_lower =
     [candidate \<leftarrow> candidates.
        sublist input_lower (lower candidate) \<or> sublist (lower candidate) input_lower]"

definition similarity :: "string \<Rightarrow> string \<Rightarrow> rat" where
  "similarity input_lower candidate_lower =
     of_nat (card (set input_lower \<inter> set candidate_lower)) / of_nat (card (set input_lower))"

definition char_matches :: "string list \<Rightarrow> string \<Rightarrow> string list" where
  "char_matches candidates input_lower =
     map fst (sort_key (\<lambda>x. - snd x)
       [(candidate, similarity input_lower (lower candidate)). candidate \<leftarrow> candidates,
          card (set input_lower) > 2, similarity input_lower (lower candidate) > 75 / 100])"

definition affix_matches :: "string list \<Rightarrow> string \<Rightarrow> string list" where
  "affix_matches candidates input_lower =
     [candidate \<leftarrow> candidates.
        prefix input_lower (lower candidate) \<or> suffix input_lower (lower candidate) \<or>
        prefix (lower candidate) input_lower \<or> suffix (lower candidate) input_lower]"

text \<open>
  \<open>all_suggestions.extend([m for m in ms if m not in all_suggestions])\<close>: the comprehension
  is evaluated against the list as it is before the extension.
\<close>

definition extend_new :: "string list \<Rightarrow> string list \<Rightarrow> string list" where
  "extend_new all_suggestions ms = all_suggestions @ [m \<leftarrow> ms. m \<notin> set all_suggestions]"

definition all_suggestions :: "string list \<Rightarrow> string \<Rightarrow> string list \<Rightarrow> string list" where
  "all_suggestions candidates input_lower close_matches =
     extend_new (extend_new (extend_new (substring_matches candidates input_lower)
        close_matches) (char_matches candidates input_lower))
        (affix_matches candidates input_lower)"

definition get_class_suggestions ::
  "(string \<Rightarrow> string \<Rightarrow> rat) \<Rightarrow> world \<Rightarrow> string \<Rightarrow> int \<Rightarrow> py_error + suggestion_result"
where
  "get_class_suggestions ratio default_world input_name max_suggestions =
     (let candidates = get_class_candidates default_world in
      if candidates = [] then Inr \<lparr>type = ''none'', match = None, suggestions = []\<rparr>
      else
        let input_lower = lower input_name;
            exact = [c \<leftarrow> candidates. lower c = input_lower] in
        if exact \<noteq> [] then Inr \<lparr>type = ''exact'', match = Some (hd exact), suggestions = []\<rparr>
        else
          (case get_close_matches ratio input_name candidates (max_suggestions * 2) (6 / 10) of
             Inl e \<Rightarrow> Inl e
           | Inr close_matches \<Rightarrow>
               let final_suggestions =
                     slice_to max_suggestions (all_suggestions candidates input_lower close_matches) in
               if final_suggestions \<noteq> []
               then Inr \<lparr>type = ''suggestions'', match = None, suggestions = final_suggestions\<rparr>
               else Inr \<lparr>type = ''none'', match = None, suggestions = []\<rparr>))"

definition resolve_class_name_fuzzy ::
  "(string \<Rightarrow> string \<Rightarrow> rat) \<Rightarrow> world \<Rightarrow> string \<Rightarrow> py_error + string option"
where
  "resolve_class_name_fuzzy ratio default_world input_name =
     (case get_class_suggestions ratio default_world input_name 3 of
        Inl e \<Rightarrow> Inl e
      | Inr result \<Rightarrow>
          if type result = ''exact'' then Inr (match result)
          else if type result = ''suggestions'' then
            (if suggestions result \<noteq> [] then
               (case get_close_matches ratio input_name (suggestions result) 1 (8 / 10) of
                  Inl e \<Rightarrow> Inl e
                | Inr best_match \<Rightarrow>
                    if best_match \<noteq> [] then Inr (Some (hd best_match)) else Inr None)
             else Inr None)
          else Inr None)"

subsection \<open>Message texts\<close>

definition nl :: string where "nl = [CHR 0x0A]"

definition apos :: string where "apos = [CHR 0x27]"

definition cross_mark :: string where "cross_mark = [CHR 0xE2, CHR 0x9D, CHR 0x8C]"

definition light_bulb :: string where "light_bulb = [CHR 0xF0, CHR 0x9F, CHR 0x92, CHR 0xA1]"

definition bullet :: string where "bullet = [CHR 0xE2, CHR 0x80, CHR 0xA2]"

definition magnifier :: string where "magnifier = [CHR 0xF0, CHR 0x9F, CHR 0x94, CHR 0x8D]"

definition name_badge :: string where "name_badge = [CHR 0xF0, CHR 0x9F, CHR 0x93, CHR 0x9B]"

definition clipboard :: string where "clipboard = [CHR 0xF0, CHR 0x9F, CHR 0x93, CHR 0x8B]"

text \<open>\<open>sep.join(xs)\<close>.\<close>

fun join :: "string \<Rightarrow> string list \<Rightarrow> string" where
  "join sep [] = []"
| "join sep [x] = x"
| "join sep (x # y # ys) = x @ sep @ join sep (y # ys)"

text \<open>\<open>str(n)\<close> of a natural number.\<close>

fun str_nat :: "nat \<Rightarrow> string" where
  "str_nat n =
     (if n < 10 then [char_of (48 + n)] else str_nat (n div 10) @ [char_of (48 + n mod 10)])"

declare str_nat.simps [simp del]

definition format_suggestions_message ::
  "(string \<Rightarrow> string \<Rightarrow> rat) \<Rightarrow> world \<Rightarrow> string \<Rightarrow> py_error + string option"
where
  "format_suggestions_message ratio default_world input_name =
     (case get_class_suggestions ratio default_world input_name 3 of
        Inl e \<Rightarrow> Inl e
      | Inr result \<Rightarrow>
          if type result = ''exact'' then Inr None
          else if type result = ''suggestions'' then
            (if length (suggestions result) = 1
             then Inr (Some (light_bulb @ '' Did you mean '' @ apos @ hd (suggestions result) @ apos
                      @ ''? Try: explain '' @ hd (suggestions result)))
             else Inr (Some (light_bulb @ '' Did you mean one of these?'' @ nl
                      @ join nl (map (\<lambda>suggestion. ''   '' @ bullet @ '' '' @ suggestion)
                                     (suggestions result)))))
          else Inr (Some (cross_mark @ '' No similar classes found for '' @ apos @ input_name @ apos
                 @ ''. Try '' @ apos @ ''list classes'' @ apos @ '' to see available options.'')))"

section \<open>The knowledge-base operations\<close>

text \<open>
  The collaborators and the global state of the program, as one context:
  \<^item> \<open>seq_ratio\<close>: the similarity metric of \<open>difflib\<close>;
  \<^item> \<open>onto\<close>: the global \<open>onto\<close> of \<open>ontology_tools\<close>, \<open>None\<close> until a module is loaded;
  \<^item> \<open>ontologies\<close>: \<open>owlready2.default_world.ontologies\<close>;
  \<^item> \<open>owl_query\<close>: what a knowledge-base function computes with \<open>owlready2\<close> once its guard
    \<open>onto is None\<close> has let it through, by the function's name, the ontology and the
    arguments; it may raise;
  \<^item> \<open>stats_report\<close>: the report \<open>get_ontology_stats\<close> builds behind its guard;
  \<^item> \<open>call_local_llm\<close>: the reply of the reasoning service to a prompt (the function catches
    every exception and returns the error as text);
  \<^item> \<open>json_loads\<close>: \<open>json.loads\<close>, \<open>None\<close> for \<open>JSONDecodeError\<close>, read as a plan;
  \<^item> \<open>gemma_synthesize_results\<close>: the text of the synthesis step.
\<close>

record func_call =
  func :: string
  arguments :: "string list option"

record step_result =
  fname :: string
  output_text :: string

text \<open>
  A parsed plan. A step is a dictionary: one with the key \<open>function\<close> is a call, one without
  it whose \<open>step\<close> is \<open>analysis\<close> is the synthesis marker with its optional instruction, any
  other is skipped. A plan is a dictionary with the key \<open>function\<close>, a list of steps, or
  anything else, kept as its \<open>str\<close>. The arguments of a call are strings.
\<close>

datatype step = Call func_call | Analysis "string option" | Other

datatype plan = Single func_call | Steps "step list" | Invalid string

record 'o ctx =
  seq_ratio :: "string \<Rightarrow> string \<Rightarrow> rat"
  onto :: "'o option"
  ontologies :: world
  owl_query :: "string \<Rightarrow> 'o \<Rightarrow> string list \<Rightarrow> py_error + string"
  stats_report :: "world \<Rightarrow> string"
  call_local_llm :: "string \<Rightarrow> bool \<Rightarrow> string"
  json_loads :: "string \<Rightarrow> plan option"
  gemma_synthesize_results :: "string \<Rightarrow> step_result list \<Rightarrow> string"

definition no_ontology_message :: string where
  "no_ontology_message = cross_mark @ '' No ontology loaded. Please load modules first.''"

text \<open>
  The functions of \<open>ontology_tools\<close> that start with
  \<open>if onto is None: return "... No ontology loaded. Please load modules first."\<close>
\<close>

definition guarded_query :: "'o ctx \<Rightarrow> string \<Rightarrow> string list \<Rightarrow> py_error + string" where
  "guarded_query c f args =
     (case onto c of None \<Rightarrow> Inr no_ontology_message | Some ont \<Rightarrow> owl_query c f ont args)"

text \<open>
  \<open>search_classes_by_keyword(keyword)\<close>: what one class contributes to \<open>matches\<close>, as
  triples of name, match type and match text.
\<close>

definition class_matches :: "string \<Rightarrow> owl_class \<Rightarrow> (string \<times> string \<times> string) list" where
  "class_matches keyword_lower cls =
     (if sublist keyword_lower (lower (name cls)) then [(name cls, ''name'', name cls)]
      else
        (case [l \<leftarrow> label cls. sublist keyword_lower (lower l)] of
           [] \<Rightarrow> [] | l # _ \<Rightarrow> [(name cls, ''label'', l)]) @
        (case [k \<leftarrow> comment cls. sublist keyword_lower (lower k)] of
           [] \<Rightarrow> []
         | k # _ \<Rightarrow> [(name cls, ''comment'',
                       if length k > 100 then take 100 k @ ''...'' else k)]))"

definition search_classes_by_keyword :: "'o ctx \<Rightarrow> string \<Rightarrow> string" where
  "search_classes_by_keyword c keyword =
     (let keyword_lower = lower keyword;
          matches = concat [class_matches keyword_lower cls.
                              ontology \<leftarrow> ontologies c, cls \<leftarrow> ontology] in
      if matches = []
      then cross_mark @ '' No classes found containing '' @ apos @ keyword @ apos
      else join nl
        ([magnifier @ '' Found '' @ str_nat (length matches) @ '' classes containing ''
            @ apos @ keyword @ apos @ '':''] @
         map (\<lambda>(n, t, x). ''  '' @ name_badge @ '' '' @ n @ '' ('' @ t @ '': '' @ x @ '')'')
           (take 15 matches) @
         (if length matches > 15
          then [''  ... and '' @ str_nat (length matches - 15) @ '' more matches'']
          else [])))"

definition get_ontology_stats :: "'o ctx \<Rightarrow> string" where
  "get_ontology_stats c =
     (if ontologies c = [] then no_ontology_message else stats_report c (ontologies c))"

definition list_classes :: "'o ctx \<Rightarrow> string" where
  "list_classes c =
     (let candidates = get_class_candidates (ontologies c) in
      join nl (map (\<lambda>n. bullet @ '' '' @ n) (take 100 candidates)) @
      (if length candidates > 100 then nl @ ''... (truncated)'' else []))"

text \<open>
  The call \<open>f(*args)\<close> of a function of \<open>ontology_tools\<close> by its name: Python raises
  \<open>TypeError\<close> when the number of arguments does not fit the signature.
  \<open>get_related_concepts\<close> has the optional second parameter \<open>max_depth\<close>;
  \<open>explain_relationship\<close> and \<open>get_reasoning_chain\<close> take two class names.
\<close>

definition one_parameter_functions :: "string list" where
  "one_parameter_functions =
     [''get_superclasses'', ''get_subclasses'', ''get_properties'', ''describe_class'',
      ''explain_class'', ''get_class_info'', ''get_all_superclasses'',
      ''get_inferred_properties'', ''get_property_details'']"

definition apply_function :: "'o ctx \<Rightarrow> string \<Rightarrow> string list \<Rightarrow> py_error + string" where
  "apply_function c f args =
     (if f = ''get_ontology_stats''
      then (if args = [] then Inr (get_ontology_stats c) else Inl TypeError)
      else if f = ''search_classes_by_keyword''
      then (if length args = 1 then Inr (search_classes_by_keyword c (hd args)) else Inl TypeError)
      else if f \<in> set one_parameter_functions
      then (if length args = 1 then guarded_query c f args else Inl TypeError)
      else if f = ''get_related_concepts''
      then (if length args = 1 \<or> length args = 2 then guarded_query c f args else Inl TypeError)
      else if f = ''explain_relationship'' \<or> f = ''get_reasoning_chain''
      then (if length args = 2 then guarded_query c f args else Inl TypeError)
      else Inl TypeError)"

section \<open>The operation executor\<close>

text \<open>
  A step returns its result and the calls it made to the knowledge base, each with the
  function's name and the arguments it was given. The \<open>print\<close> statements are left out.
\<close>

type_synonym kb_call = "string \<times> string list"

definition reply :: "string \<Rightarrow> string \<Rightarrow> py_error + step_result \<times> kb_call list" where
  "reply f text = Inr (\<lparr>fname = f, output_text = text\<rparr>, [])"

definition invoke :: "'o ctx \<Rightarrow> string \<Rightarrow> string list \<Rightarrow> py_error + step_result \<times> kb_call list" where
  "invoke c f args =
     (case apply_function c f args of
        Inl e \<Rightarrow> Inl e
      | Inr text \<Rightarrow> Inr (\<lparr>fname = f, output_text = text\<rparr>, [(f, args)]))"

definition single_class_functions :: "string list" where
  "single_class_functions =
     [''get_superclasses'', ''get_subclasses'', ''get_properties'',
      ''describe_class'', ''explain_class'', ''get_related_concepts'',
      ''get_class_info'', ''get_all_superclasses'', ''get_inferred_properties'']"

definition two_class_functions :: "string list" where
  "two_class_functions = [''explain_relationship'', ''get_reasoning_chain'']"

text \<open>\<open>not resolved\<close>: \<open>None\<close> and the empty string are false.\<close>

definition unresolved :: "string option \<Rightarrow> bool" where
  "unresolved resolved = (case resolved of None \<Rightarrow> True | Some s \<Rightarrow> s = [])"

definition not_found_message :: "string \<Rightarrow> string option \<Rightarrow> string" where
  "not_found_message original_name suggestion_msg =
     cross_mark @ '' Class '' @ apos @ original_name @ apos @ '' not found.'' @ nl @
     (case suggestion_msg of None \<Rightarrow> ''None'' | Some m \<Rightarrow> m)"

text \<open>
  The resolution of \<open>args[i]\<close>: either the step returns the not-found message, or
  \<open>args[i]\<close> is replaced by the resolved name.
\<close>

datatype resolution = Not_found string | Resolved "string list"

definition resolve_argument :: "'o ctx \<Rightarrow> string list \<Rightarrow> nat \<Rightarrow> py_error + resolution" where
  "resolve_argument c args i =
     (let original_name = args ! i in
      case resolve_class_name_fuzzy (seq_ratio c) (ontologies c) original_name of
        Inl e \<Rightarrow> Inl e
      | Inr resolved \<Rightarrow>
          if unresolved resolved then
            (case format_suggestions_message (seq_ratio c) (ontologies c) original_name of
               Inl e \<Rightarrow> Inl e
             | Inr suggestion_msg \<Rightarrow> Inr (Not_found (not_found_message original_name suggestion_msg)))
          else Inr (Resolved (args[i := the resolved])))"

text \<open>The chain of \<open>if func == ...\<close> that ends \<open>execute_single_function\<close>.\<close>

definition dispatch :: "'o ctx \<Rightarrow> string \<Rightarrow> string list \<Rightarrow> py_error + step_result \<times> kb_call list" where
  "dispatch c f args =
     (if f = ''get_superclasses'' \<or> f = ''get_subclasses'' \<or> f = ''get_properties'' \<or>
         f = ''describe_class'' \<or> f = ''explain_class'' \<or> f = ''get_class_info'' \<or>
         f = ''get_all_superclasses'' \<or> f = ''get_inferred_properties''
      then invoke c f args
      else if f = ''get_related_concepts''
      then (if length args = 1 then invoke c f [args ! 0] else invoke c f args)
      else if f = ''explain_relationship''
      then (if length args \<ge> 2 then invoke c f [args ! 0, args ! 1]
            else reply f (cross_mark @ '' explain_relationship requires two class names''))
      else if f = ''get_reasoning_chain''
      then (if length args \<ge> 2 then invoke c f [args ! 0, args ! 1]
            else reply f (cross_mark @ '' get_reasoning_chain requires two class names''))
      else if f = ''get_property_details'' then invoke c f args
      else reply f (cross_mark @ '' Unsupported function: '' @ f))"

definition resolve_two :: "'o ctx \<Rightarrow> string list \<Rightarrow> py_error + resolution" where
  "resolve_two c args =
     (case resolve_argument c args 0 of
        Inl e \<Rightarrow> Inl e
      | Inr (Not_found text) \<Rightarrow> Inr (Not_found text)
      | Inr (Resolved args1) \<Rightarrow> resolve_argument c args1 1)"

definition execute_single_function ::
  "'o ctx \<Rightarrow> func_call \<Rightarrow> py_error + step_result \<times> kb_call list"
where
  "execute_single_function c func_call =
     (let f = func func_call;
          args = (case arguments func_call of None \<Rightarrow> [] | Some a \<Rightarrow> a) in
      if f = ''list_classes'' then reply f (list_classes c)
      else if f = ''get_ontology_stats'' then invoke c f []
      else if f = ''search_classes_by_keyword'' then
        (if args \<noteq> [] then invoke c f args
         else reply f (cross_mark @ '' search_classes_by_keyword requires a keyword argument''))
      else
        (case (if f \<in> set single_class_functions \<and> args \<noteq> []
               then resolve_argument c args 0 else Inr (Resolved args)) of
           Inl e \<Rightarrow> Inl e
         | Inr (Not_found text) \<Rightarrow> reply f text
         | Inr (Resolved args1) \<Rightarrow>
            (case (if f \<in> set two_class_functions \<and> length args1 \<ge> 2
                   then resolve_two c args1 else Inr (Resolved args1)) of
               Inl e \<Rightarrow> Inl e
             | Inr (Not_found text) \<Rightarrow> reply f text
             | Inr (Resolved args2) \<Rightarrow> dispatch c f args2)))"

section \<open>The query planner\<close>

text \<open>
  \<open>s.replace(old, new)\<close> for a non-empty \<open>old\<close>, from left to right without overlaps, and
  \<open>s.strip()\<close> on the ASCII white space.
\<close>

function replace :: "string \<Rightarrow> string \<Rightarrow> string \<Rightarrow> string" where
  "replace old new s =
     (if old = [] \<or> s = [] then s
      else if prefix old s then new @ replace old new (drop (length old) s)
      else hd s # replace old new (tl s))"
  by pat_completeness auto
termination
  by (relation "measure (\<lambda>(old, new, s). length s)") auto

definition is_space :: "char \<Rightarrow> bool" where
  "is_space ch =
     (let n = (of_char ch :: nat) in n = 32 \<or> (9 \<le> n \<and> n \<le> 13) \<or> (28 \<le> n \<and> n \<le> 31))"

definition strip :: "string \<Rightarrow> string" where
  "strip s = rev (dropWhile is_space (rev (dropWhile is_space s)))"

definition complex_indicators :: "string list" where
  "complex_indicators =
     [''compare'', ''analyze'', ''structure'', ''complete'', ''comprehensive'',
      ''differences'', ''similarities'', ''relationship between'', ''all about'',
      ''overview of'', ''breakdown'', ''in detail'', ''thorough'', ''full analysis'']"

definition is_complex_query :: "string \<Rightarrow> bool" where
  "is_complex_query user_input =
     list_ex (\<lambda>indicator. sublist indicator (lower user_input)) complex_indicators"

definition code_fence :: string where
  "code_fence = [CHR 0x60, CHR 0x60, CHR 0x60]"

definition clean_plan :: "string \<Rightarrow> string" where
  "clean_plan raw_plan =
     (if sublist code_fence raw_plan
      then strip (replace code_fence [] (replace (code_fence @ ''json'') [] raw_plan))
      else raw_plan)"

definition parse_failure_message :: "string \<Rightarrow> string" where
  "parse_failure_message raw_plan =
     cross_mark @ '' Failed to parse LLM output as JSON:'' @ nl @ raw_plan"

text \<open>
  What a query does outside the program: the request to the reasoning service, the calls to
  the knowledge base and the requests for a synthesis, in order.
\<close>

datatype event = Plan_request string bool | Kb_call string "string list" | Synthesis string

text \<open>
  The loop over the steps of a multi-step plan, with \<open>results\<close>, \<open>final_analysis\<close> and the
  events so far. An exception in a step leaves the loop and the query.
\<close>

fun run_steps ::
  "'o ctx \<Rightarrow> step list \<Rightarrow> step_result list \<Rightarrow> string option \<Rightarrow> event list
     \<Rightarrow> py_error + step_result list \<times> string option \<times> event list"
where
  "run_steps c [] results final_analysis evs = Inr (results, final_analysis, evs)"
| "run_steps c (Call fc # rest) results final_analysis evs =
     (case execute_single_function c fc of
        Inl e \<Rightarrow> Inl e
      | Inr (result, calls) \<Rightarrow>
          run_steps c rest (results @ [result]) final_analysis
            (evs @ map (\<lambda>(f, args). Kb_call f args) calls))"
| "run_steps c (Analysis instr # rest) results final_analysis evs =
     (let instruction =
            (case instr of None \<Rightarrow> ''Analyze and synthesize the results'' | Some i \<Rightarrow> i) in
      run_steps c rest results (Some (gemma_synthesize_results c instruction results))
        (evs @ [Synthesis instruction]))"
| "run_steps c (Other # rest) results final_analysis evs =
     run_steps c rest results final_analysis evs"

fun result_parts :: "nat \<Rightarrow> step_result list \<Rightarrow> string list" where
  "result_parts i [] = []"
| "result_parts i (result # rest) =
     [''### '' @ str_nat i @ ''. '' @ fname result, output_text result, []] @
     result_parts (Suc i) rest"

definition response_parts :: "step_result list \<Rightarrow> string option \<Rightarrow> string list" where
  "response_parts results final_analysis =
     [clipboard @ '' **Individual Results:**'' @ nl] @ result_parts 1 results @
     (case final_analysis of
        None \<Rightarrow> []
      | Some a \<Rightarrow> if a \<noteq> [] then [replicate 60 (CHR ''=''), a] else [])"

definition run_natural_language_query :: "'o ctx \<Rightarrow> string \<Rightarrow> py_error + string \<times> event list" where
  "run_natural_language_query c user_input =
     (let use_multi_step = is_complex_query user_input;
          raw_plan = clean_plan (call_local_llm c user_input use_multi_step);
          request = Plan_request user_input use_multi_step in
      case json_loads c raw_plan of
        None \<Rightarrow> Inr (parse_failure_message raw_plan, [request])
      | Some (Single fc) \<Rightarrow>
          (case execute_single_function c fc of
             Inl e \<Rightarrow> Inl e
           | Inr (result, calls) \<Rightarrow>
               Inr (output_text result, request # map (\<lambda>(f, args). Kb_call f args) calls))
      | Some (Steps steps) \<Rightarrow>
          (case run_steps c steps [] None [request] of
             Inl e \<Rightarrow> Inl e
           | Inr (results, final_analysis, evs) \<Rightarrow>
               Inr (join nl (response_parts results final_analysis), evs))
      | Some (Invalid repr) \<Rightarrow> Inr (cross_mark @ '' Invalid plan format: '' @ repr, [request]))"
section \<open>Tiers\<close>

text \<open>
  The tier of the resolver that contributes a name to the suggestions, numbered as the
  steps of \<open>get_class_suggestions\<close>: 2 for a substring match, 3 for a close match that is
  no substring match, 4 for a character match that is neither, 5 for what is left to the
  prefix and suffix matches.
\<close>

definition tier :: "string list \<Rightarrow> string \<Rightarrow> string list \<Rightarrow> string \<Rightarrow> nat" where
  "tier candidates input_lower close_matches m =
     (if m \<in> set (substring_matches candidates input_lower) then 2
      else if m \<in> set close_matches then 3
      else if m \<in> set (char_matches candidates input_lower) then 4
      else 5)"

section \<open>Instances\<close>

text \<open>Classes of the accounting module of the ontology, for the instances of the theorems.\<close>

definition named :: "string \<Rightarrow> owl_class" where
  "named n = \<lparr>name = n, label = [], comment = []\<rparr>"

definition equity_world :: world where
  "equity_world = [[named ''PaidInCapital'', named ''CapitalSurplus'', named ''OwnersEquity'']]"

definition accounting_world :: world where
  "accounting_world =
     [[named ''PaidInCapital'', named ''CapitalSurplus'', named ''OwnersEquity'',
       named ''RetainedEarnings''],
      [named ''ShareholdersEquity'', named ''StockholdersEquity'', named ''OwnersEquity'']]"

text \<open>
  Two contexts for the instances: one with the three classes loaded, whose knowledge-base
  functions answer with the call they were given, and one with nothing loaded. In both the
  reasoning service replies with a fenced text that is no JSON.
\<close>

definition echo_query :: "string \<Rightarrow> unit \<Rightarrow> string list \<Rightarrow> py_error + string" where
  "echo_query f ont args = Inr (f @ ''('' @ join '', '' args @ '')'')"

definition plain_stats :: "world \<Rightarrow> string" where
  "plain_stats w = ''Classes: '' @ str_nat (length (get_class_candidates w))"

definition fenced_reply :: "string \<Rightarrow> bool \<Rightarrow> string" where
  "fenced_reply prompt use_multi_step =
     code_fence @ ''json'' @ nl @ ''I do not know'' @ nl @ code_fence"

definition reject_json :: "string \<Rightarrow> plan option" where
  "reject_json s = None"

definition plain_synthesis :: "string \<Rightarrow> step_result list \<Rightarrow> string" where
  "plain_synthesis instruction results = ''Analysis: '' @ instruction"

definition loaded_ctx :: "unit ctx" where
  "loaded_ctx =
     \<lparr>seq_ratio = sequence_ratio, onto = Some (), ontologies = equity_world,
      owl_query = echo_query, stats_report = plain_stats, call_local_llm = fenced_reply,
      json_loads = reject_json, gemma_synthesize_results = plain_synthesis\<rparr>"

definition not_loaded_ctx :: "unit ctx" where
  "not_loaded_ctx =
     \<lparr>seq_ratio = sequence_ratio, onto = None, ontologies = [],
      owl_query = echo_query, stats_report = plain_stats, call_local_llm = fenced_reply,
      json_loads = reject_json, gemma_synthesize_results = plain_synthesis\<rparr>"

text \<open>
  A reply of the reasoning service that parses to a plan of two steps, the first one
  without its argument, and the context in which every reply is read as this plan.
\<close>

definition missing_argument_plan :: "string \<Rightarrow> plan option" where
  "missing_argument_plan s =
     Some (Steps [Call \<lparr>func = ''get_superclasses'', arguments = Some []\<rparr>,
                  Call \<lparr>func = ''get_subclasses'', arguments = Some [''PaidInCapital'']\<rparr>])"

definition missing_argument_ctx :: "unit ctx" where
  "missing_argument_ctx =
     \<lparr>seq_ratio = sequence_ratio, onto = Some (), ontologies = equity_world,
      owl_query = echo_query, stats_report = plain_stats, call_local_llm = fenced_reply,
      json_loads = missing_argument_plan, gemma_synthesize_results = plain_synthesis\<rparr>"

text \<open>The calls among the steps of a plan, in order.\<close>

fun step_calls :: "step list \<Rightarrow> func_call list" where
  "step_calls [] = []"
| "step_calls (Call fc # rest) = fc # step_calls rest"
| "step_calls (Analysis instr # rest) = step_calls rest"
| "step_calls (Other # rest) = step_calls rest"

section \<open>Properties of the name resolver\<close>

lemma distinct_get_class_candidates: "distinct (get_class_candidates w)"
  by (simp add: get_class_candidates_def)

lemma distinct_map_snd_sort:
  fixes ps :: "('a::linorder \<times> 'b::linorder) list"
  shows "distinct (map snd ps) \<Longrightarrow> distinct (map snd (sort ps))"
  by (simp add: distinct_map)

lemma distinct_map_snd_nlargest:
  fixes ps :: "('a::linorder \<times> 'b::linorder) list"
  assumes "distinct (map snd ps)"
  shows "distinct (map snd (nlargest n ps))"
proof -
  have "distinct (map snd (rev (sort ps)))"
    using distinct_map_snd_sort [OF assms] by (simp add: rev_map [symmetric])
  then have "distinct (take n (map snd (rev (sort ps))))" by (rule distinct_take)
  then show ?thesis by (simp add: nlargest_def take_map)
qed

lemma set_nlargest: "set (nlargest n ps) \<subseteq> set ps"
  unfolding nlargest_def using set_take_subset [of n "rev (sort ps)"] by simp

lemma scored_snd: "map snd [(f x, x). x \<leftarrow> xs, P x] = filter P xs"
  by (induction xs) auto

lemma scored_fst: "map fst [(x, f x). x \<leftarrow> xs, P x] = filter P xs"
  by (induction xs) auto

lemma distinct_get_close_matches:
  assumes "get_close_matches ratio word ps n cutoff = Inr ms" "distinct ps"
  shows "distinct ms"
proof -
  let ?sc = "[(ratio x word, x). x \<leftarrow> ps, ratio x word \<ge> cutoff]"
  have "distinct (map snd ?sc)" using assms(2) by (simp add: scored_snd)
  then have "distinct (map snd (nlargest (nat n) ?sc))" by (rule distinct_map_snd_nlargest)
  with assms(1) show ?thesis by (auto simp add: get_close_matches_def split: if_splits)
qed

lemma set_get_close_matches:
  assumes "get_close_matches ratio word ps n cutoff = Inr ms" "m \<in> set ms"
  shows "m \<in> set ps \<and> ratio m word \<ge> cutoff"
proof -
  let ?sc = "[(ratio x word, x). x \<leftarrow> ps, ratio x word \<ge> cutoff]"
  from assms have "m \<in> snd ` set (nlargest (nat n) ?sc)"
    by (auto simp add: get_close_matches_def split: if_splits)
  then have "m \<in> snd ` set ?sc" using set_nlargest [of "nat n" ?sc] by blast
  then have "m \<in> set (map snd ?sc)" by simp
  then show ?thesis unfolding scored_snd by simp
qed

lemma distinct_substring_matches: "distinct cs \<Longrightarrow> distinct (substring_matches cs l)"
  by (simp add: substring_matches_def)

lemma distinct_affix_matches: "distinct cs \<Longrightarrow> distinct (affix_matches cs l)"
  by (simp add: affix_matches_def)

lemma distinct_char_matches:
  assumes "distinct cs"
  shows "distinct (char_matches cs l)"
proof -
  let ?sc = "[(candidate, similarity l (lower candidate)). candidate \<leftarrow> cs,
          card (set l) > 2, similarity l (lower candidate) > 75 / 100]"
  have e: "?sc = [(candidate, similarity l (lower candidate)). candidate \<leftarrow> cs,
          card (set l) > 2 \<and> similarity l (lower candidate) > 75 / 100]"
    by (induction cs) auto
  have "distinct (map fst ?sc)" unfolding e scored_fst using assms by simp
  then have "distinct (map fst (sort_key (\<lambda>x. - snd x) ?sc))"
    by (simp add: distinct_map)
  then show ?thesis by (simp add: char_matches_def)
qed

lemma distinct_extend_new: "distinct xs \<Longrightarrow> distinct ms \<Longrightarrow> distinct (extend_new xs ms)"
  by (auto simp add: extend_new_def)

lemma distinct_all_suggestions:
  "distinct cs \<Longrightarrow> distinct close \<Longrightarrow> distinct (all_suggestions cs l close)"
  unfolding all_suggestions_def
  by (intro distinct_extend_new distinct_substring_matches distinct_char_matches
      distinct_affix_matches)

lemma distinct_slice_to: "distinct xs \<Longrightarrow> distinct (slice_to n xs)"
  by (simp add: slice_to_def)

lemma length_slice_to: "0 \<le> n \<Longrightarrow> int (length (slice_to n xs)) \<le> n"
  by (simp add: slice_to_def)

lemma get_close_matches_returns:
  "0 < n \<Longrightarrow> 0 \<le> cutoff \<Longrightarrow> cutoff \<le> 1 \<Longrightarrow> \<exists>ms. get_close_matches ratio word ps n cutoff = Inr ms"
  by (simp add: get_close_matches_def)

lemma get_class_suggestions_returns:
  "0 < max_suggestions \<Longrightarrow> \<exists>r. get_class_suggestions ratio w s max_suggestions = Inr r"
  by (simp add: get_class_suggestions_def get_close_matches_def Let_def)

lemma sorted_get_class_candidates: "sorted (get_class_candidates w)"
  by (simp add: get_class_candidates_def)

lemma hd_filter_sorted_least:
  fixes xs :: "('a::linorder) list"
  assumes "sorted xs" "c \<in> set xs" "P c"
  shows "hd (filter P xs) \<le> c"
proof -
  have s: "sorted (filter P xs)" using assms(1) by (induction xs) auto
  have m: "c \<in> set (filter P xs)" using assms by simp
  then obtain y ys where e: "filter P xs = y # ys" by (cases "filter P xs") auto
  with s m show ?thesis by auto
qed

lemma hd_filter_mem: "filter P xs \<noteq> [] \<Longrightarrow> hd (filter P xs) \<in> set xs \<and> P (hd (filter P xs))"
  using hd_in_set [of "filter P xs"] by simp

lemma no_scores:
  fixes q :: rat
  shows "\<forall>c \<in> set cs. f c < q \<Longrightarrow> [(f x, x). x \<leftarrow> cs, f x \<ge> q] = []"
  by (induction cs) auto

text \<open>
  C1. The resolver returns a result of type \<open>exact\<close> if and only if some candidate equals the
  input ignoring case. When there is one, the result is the exact match alone, with no
  suggestions, whatever the similarity metric and \<open>max_suggestions\<close> are: the match is a
  candidate in its own casing that equals the input ignoring case, and the first such
  candidate in the sorted candidate list.
\<close>

theorem exact_match_iff:
  "((\<exists>r. get_class_suggestions ratio w s max_suggestions = Inr r \<and> type r = ''exact'') \<longleftrightarrow>
      (\<exists>c \<in> set (get_class_candidates w). lower c = lower s)) \<and>
   ((\<exists>c \<in> set (get_class_candidates w). lower c = lower s) \<longrightarrow>
      (\<exists>m. get_class_suggestions ratio w s max_suggestions =
              Inr \<lparr>type = ''exact'', match = Some m, suggestions = []\<rparr> \<and>
           m \<in> set (get_class_candidates w) \<and> lower m = lower s \<and>
           (\<forall>c \<in> set (get_class_candidates w). lower c = lower s \<longrightarrow> m \<le> c)))"
proof -
  let ?cs = "get_class_candidates w"
  let ?ex = "[c \<leftarrow> ?cs. lower c = lower s]"
  have A: "(\<exists>c \<in> set ?cs. lower c = lower s) \<Longrightarrow>
      get_class_suggestions ratio w s max_suggestions =
              Inr \<lparr>type = ''exact'', match = Some (hd ?ex), suggestions = []\<rparr>"
  proof -
    assume h: "\<exists>c \<in> set ?cs. lower c = lower s"
    then have "?cs \<noteq> []" by auto
    moreover from h have "?ex \<noteq> []" by (simp add: filter_empty_conv)
    ultimately show ?thesis by (simp add: get_class_suggestions_def Let_def)
  qed
  have B: "(\<exists>c \<in> set ?cs. lower c = lower s) \<Longrightarrow>
      hd ?ex \<in> set ?cs \<and> lower (hd ?ex) = lower s \<and>
      (\<forall>c \<in> set ?cs. lower c = lower s \<longrightarrow> hd ?ex \<le> c)"
  proof -
    assume h: "\<exists>c \<in> set ?cs. lower c = lower s"
    then have ne: "?ex \<noteq> []" by (simp add: filter_empty_conv)
    from hd_filter_mem [OF ne] have "hd ?ex \<in> set ?cs \<and> lower (hd ?ex) = lower s" .
    moreover have "\<forall>c \<in> set ?cs. lower c = lower s \<longrightarrow> hd ?ex \<le> c"
      using hd_filter_sorted_least [OF sorted_get_class_candidates, of _ w "\<lambda>c. lower c = lower s"]
      by blast
    ultimately show ?thesis by blast
  qed
  have C: "get_class_suggestions ratio w s max_suggestions = Inr r \<Longrightarrow> type r = ''exact'' \<Longrightarrow>
      (\<exists>c \<in> set ?cs. lower c = lower s)" for r
  proof (rule ccontr)
    assume r: "get_class_suggestions ratio w s max_suggestions = Inr r" and t: "type r = ''exact''"
    assume n: "\<not> (\<exists>c \<in> set ?cs. lower c = lower s)"
    then have "?ex = []" by (simp add: filter_empty_conv)
    with r have "type r \<noteq> ''exact''"
      by (auto simp add: get_class_suggestions_def Let_def split: if_splits sum.splits)
    with t show False by simp
  qed
  show ?thesis using A B C by (metis suggestion_result.select_convs(1))
qed

text \<open>
  C2. For a count \<open>max_suggestions\<close>, whatever the resolver returns has at most
  \<open>max_suggestions\<close> suggestions and no name twice; and for a positive \<open>max_suggestions\<close>,
  as the default 3, the resolver does return.
\<close>

theorem suggestions_bounded_distinct:
  assumes "0 \<le> max_suggestions"
  shows "(\<forall>r. get_class_suggestions ratio w s max_suggestions = Inr r \<longrightarrow>
            int (length (suggestions r)) \<le> max_suggestions \<and> distinct (suggestions r)) \<and>
         (0 < max_suggestions \<longrightarrow> (\<exists>r. get_class_suggestions ratio w s max_suggestions = Inr r))"
proof (intro conjI allI impI)
  fix r assume r: "get_class_suggestions ratio w s max_suggestions = Inr r"
  let ?cs = "get_class_candidates w"
  have shape: "suggestions r = [] \<or>
     (\<exists>close. get_close_matches ratio s ?cs (max_suggestions * 2) (6 / 10) = Inr close \<and>
        suggestions r = slice_to max_suggestions (all_suggestions ?cs (lower s) close))"
    using r by (auto simp add: get_class_suggestions_def Let_def split: if_splits sum.splits)
  show "int (length (suggestions r)) \<le> max_suggestions"
    using shape assms length_slice_to [OF assms] by auto
  show "distinct (suggestions r)"
    using shape distinct_get_close_matches [OF _ distinct_get_class_candidates]
      distinct_slice_to [OF distinct_all_suggestions [OF distinct_get_class_candidates]]
    by auto
next
  assume "0 < max_suggestions"
  then show "\<exists>r. get_class_suggestions ratio w s max_suggestions = Inr r"
    by (rule get_class_suggestions_returns)
qed

text \<open>
  C5. For a positive \<open>max_suggestions\<close>, as the default 3, the resolver raises no exception
  on any input; and on an input that no tier matches (no candidate equals it ignoring case,
  none is a substring match, none reaches the similarity ratio 0.6, none is a character
  match and none a prefix or suffix match) it returns the result of type \<open>none\<close>, with no
  match and an empty suggestion list.
\<close>

theorem unmatched_input_none:
  assumes "0 < max_suggestions"
  shows "(\<exists>r. get_class_suggestions ratio w s max_suggestions = Inr r) \<and>
         ((\<forall>c \<in> set (get_class_candidates w). lower c \<noteq> lower s) \<and>
          substring_matches (get_class_candidates w) (lower s) = [] \<and>
          (\<forall>c \<in> set (get_class_candidates w). ratio c s < 6 / 10) \<and>
          char_matches (get_class_candidates w) (lower s) = [] \<and>
          affix_matches (get_class_candidates w) (lower s) = [] \<longrightarrow>
          get_class_suggestions ratio w s max_suggestions =
            Inr \<lparr>type = ''none'', match = None, suggestions = []\<rparr>)"
proof (intro conjI impI)
  show "\<exists>r. get_class_suggestions ratio w s max_suggestions = Inr r"
    using assms by (rule get_class_suggestions_returns)
next
  let ?cs = "get_class_candidates w"
  assume h: "(\<forall>c \<in> set ?cs. lower c \<noteq> lower s) \<and>
          substring_matches ?cs (lower s) = [] \<and>
          (\<forall>c \<in> set ?cs. ratio c s < 6 / 10) \<and>
          char_matches ?cs (lower s) = [] \<and>
          affix_matches ?cs (lower s) = []"
  then have ex: "[c \<leftarrow> ?cs. lower c = lower s] = []" by (simp add: filter_empty_conv)
  from h have E: "[(ratio x s, x). x \<leftarrow> ?cs, ratio x s \<ge> 6 / 10] = []"
    by (intro no_scores) blast
  have close: "get_close_matches ratio s ?cs (max_suggestions * 2) (6 / 10) = Inr []"
    unfolding get_close_matches_def nlargest_def E using assms by simp
  have "all_suggestions ?cs (lower s) [] = []"
    using h by (simp add: all_suggestions_def extend_new_def)
  then show "get_class_suggestions ratio w s max_suggestions =
            Inr \<lparr>type = ''none'', match = None, suggestions = []\<rparr>"
    using ex close by (simp add: get_class_suggestions_def Let_def slice_to_def)
qed

text \<open>
  C10. Every result the resolver returns has one of three shapes, by its type: \<open>exact\<close>
  with a match, which is a candidate, and no suggestions; \<open>suggestions\<close> with no match and
  a non-empty suggestion list; \<open>none\<close> with no match and no suggestions. So a match and a
  non-empty suggestion list never come together.
\<close>

theorem result_shapes:
  assumes "get_class_suggestions ratio w s max_suggestions = Inr r"
  shows "(type r = ''exact'' \<and> (\<exists>m \<in> set (get_class_candidates w). match r = Some m) \<and>
            suggestions r = []) \<or>
         (type r = ''suggestions'' \<and> match r = None \<and> suggestions r \<noteq> []) \<or>
         (type r = ''none'' \<and> match r = None \<and> suggestions r = [])"
proof -
  let ?cs = "get_class_candidates w"
  let ?ex = "[c \<leftarrow> ?cs. lower c = lower s]"
  have "?ex \<noteq> [] \<Longrightarrow> hd ?ex \<in> set ?cs"
    using hd_in_set [of ?ex] by simp
  with assms show ?thesis
    by (auto simp add: get_class_suggestions_def Let_def split: if_splits sum.splits)
qed

subsection \<open>Instances\<close>

lemma candidates_equity_world:
  "get_class_candidates equity_world = [''CapitalSurplus'', ''OwnersEquity'', ''PaidInCapital'']"
  by code_simp

lemma candidates_accounting_world:
  "get_class_candidates accounting_world =
     [''CapitalSurplus'', ''OwnersEquity'', ''PaidInCapital'', ''RetainedEarnings'',
      ''ShareholdersEquity'', ''StockholdersEquity'']"
  by code_simp

theorem exact_match_iff_witness:
  "(\<exists>c \<in> set (get_class_candidates equity_world). lower c = lower ''paidincapital'') \<and>
   get_class_suggestions sequence_ratio equity_world ''paidincapital'' 3 =
     Inr \<lparr>type = ''exact'', match = Some ''PaidInCapital'', suggestions = []\<rparr>"
proof -
  have l: "lower ''PaidInCapital'' = lower ''paidincapital''"
    "lower ''CapitalSurplus'' \<noteq> lower ''paidincapital''"
    "lower ''OwnersEquity'' \<noteq> lower ''paidincapital''"
    by code_simp+
  have h: "\<exists>c \<in> set (get_class_candidates equity_world). lower c = lower ''paidincapital''"
    unfolding candidates_equity_world using l(1) by simp
  from exact_match_iff [of sequence_ratio equity_world "''paidincapital''" 3] h
  obtain m where m: "get_class_suggestions sequence_ratio equity_world ''paidincapital'' 3 =
        Inr \<lparr>type = ''exact'', match = Some m, suggestions = []\<rparr>"
      "m \<in> set (get_class_candidates equity_world)" "lower m = lower ''paidincapital''"
    by blast
  from m(2,3) l(2,3) have "m = ''PaidInCapital''"
    unfolding candidates_equity_world by auto
  with m(1) h show ?thesis by simp
qed

theorem suggestions_bounded_distinct_witness:
  "(0::int) \<le> 2 \<and>
   get_class_suggestions sequence_ratio accounting_world ''Equity'' 2 =
     Inr \<lparr>type = ''suggestions'', match = None,
          suggestions = [''OwnersEquity'', ''ShareholdersEquity'']\<rparr> \<and>
   int (length [''OwnersEquity'', ''ShareholdersEquity'']) \<le> 2 \<and>
   distinct [''OwnersEquity'', ''ShareholdersEquity'']"
proof -
  have e: "get_class_suggestions sequence_ratio accounting_world ''Equity'' 2 =
     Inr \<lparr>type = ''suggestions'', match = None,
          suggestions = [''OwnersEquity'', ''ShareholdersEquity'']\<rparr>"
    by code_simp
  have "(0::int) \<le> 2" by simp
  from suggestions_bounded_distinct [OF this, of sequence_ratio accounting_world "''Equity''"] e
  have "int (length [''OwnersEquity'', ''ShareholdersEquity'']) \<le> 2 \<and>
        distinct [''OwnersEquity'', ''ShareholdersEquity'']"
    by (metis suggestion_result.select_convs(3))
  with e show ?thesis by simp
qed

theorem unmatched_input_none_witness:
  "(0::int) < 3 \<and>
   get_class_candidates equity_world = [''CapitalSurplus'', ''OwnersEquity'', ''PaidInCapital''] \<and>
   lower ''CapitalSurplus'' \<noteq> lower ''xyz123nonexistent'' \<and>
   lower ''OwnersEquity'' \<noteq> lower ''xyz123nonexistent'' \<and>
   lower ''PaidInCapital'' \<noteq> lower ''xyz123nonexistent'' \<and>
   substring_matches (get_class_candidates equity_world) (lower ''xyz123nonexistent'') = [] \<and>
   sequence_ratio ''CapitalSurplus'' ''xyz123nonexistent'' < 6 / 10 \<and>
   sequence_ratio ''OwnersEquity'' ''xyz123nonexistent'' < 6 / 10 \<and>
   sequence_ratio ''PaidInCapital'' ''xyz123nonexistent'' < 6 / 10 \<and>
   char_matches (get_class_candidates equity_world) (lower ''xyz123nonexistent'') = [] \<and>
   affix_matches (get_class_candidates equity_world) (lower ''xyz123nonexistent'') = [] \<and>
   get_class_suggestions sequence_ratio equity_world ''xyz123nonexistent'' 3 =
     Inr \<lparr>type = ''none'', match = None, suggestions = []\<rparr>"
proof -
  have l: "lower ''CapitalSurplus'' \<noteq> lower ''xyz123nonexistent''"
    "lower ''OwnersEquity'' \<noteq> lower ''xyz123nonexistent''"
    "lower ''PaidInCapital'' \<noteq> lower ''xyz123nonexistent''"
    by code_simp+
  have r: "sequence_ratio ''CapitalSurplus'' ''xyz123nonexistent'' < 6 / 10"
    "sequence_ratio ''OwnersEquity'' ''xyz123nonexistent'' < 6 / 10"
    "sequence_ratio ''PaidInCapital'' ''xyz123nonexistent'' < 6 / 10"
    by code_simp+
  have h1: "\<forall>c \<in> set (get_class_candidates equity_world). lower c \<noteq> lower ''xyz123nonexistent''"
    unfolding candidates_equity_world using l by simp
  have h2: "substring_matches (get_class_candidates equity_world) (lower ''xyz123nonexistent'') = []"
    by code_simp
  have h3: "\<forall>c \<in> set (get_class_candidates equity_world).
      sequence_ratio c ''xyz123nonexistent'' < 6 / 10"
    unfolding candidates_equity_world using r by simp
  have h4: "char_matches (get_class_candidates equity_world) (lower ''xyz123nonexistent'') = []"
    by code_simp
  have h5: "affix_matches (get_class_candidates equity_world) (lower ''xyz123nonexistent'') = []"
    by code_simp
  have p: "(0::int) < 3" by simp
  from unmatched_input_none [OF p, of sequence_ratio equity_world "''xyz123nonexistent''"]
    h1 h2 h3 h4 h5
  have "get_class_suggestions sequence_ratio equity_world ''xyz123nonexistent'' 3 =
     Inr \<lparr>type = ''none'', match = None, suggestions = []\<rparr>"
    by blast
  with p l r h2 h4 h5 candidates_equity_world show ?thesis by blast
qed

theorem result_shapes_witness:
  "get_class_suggestions sequence_ratio equity_world ''PaidInCapit'' 3 =
     Inr \<lparr>type = ''suggestions'', match = None, suggestions = [''PaidInCapital'']\<rparr> \<and>
   [''PaidInCapital''] \<noteq> []"
proof -
  have e: "get_class_suggestions sequence_ratio equity_world ''PaidInCapit'' 3 =
     Inr \<lparr>type = ''suggestions'', match = None, suggestions = [''PaidInCapital'']\<rparr>"
    by code_simp
  from result_shapes [OF e] show ?thesis using e by simp
qed

section \<open>The order of the suggestions\<close>

lemma sorted_map_const: "\<forall>x \<in> set xs. f x = (c::nat) \<Longrightarrow> sorted (map f xs)"
  by (induction xs) auto

lemma sorted_map_append_between:
  fixes f :: "'a \<Rightarrow> nat"
  assumes "sorted (map f xs)" "sorted (map f ys)"
    "\<forall>x \<in> set xs. f x \<le> c" "\<forall>y \<in> set ys. c \<le> f y"
  shows "sorted (map f (xs @ ys))"
  using assms by (fastforce simp add: sorted_append)

lemma tier_all_suggestions:
  "sorted (map (tier cs l close) (all_suggestions cs l close))"
proof -
  let ?t = "tier cs l close"
  define A where "A = substring_matches cs l"
  define B where "B = [m \<leftarrow> close. m \<notin> set A]"
  define C where "C = [m \<leftarrow> char_matches cs l. m \<notin> set (A @ B)]"
  define D where "D = [m \<leftarrow> affix_matches cs l. m \<notin> set ((A @ B) @ C)]"
  have e: "all_suggestions cs l close = ((A @ B) @ C) @ D"
    by (simp add: all_suggestions_def extend_new_def A_def B_def C_def D_def)
  have a: "\<forall>x \<in> set A. ?t x = 2" by (simp add: tier_def A_def)
  have b: "\<forall>x \<in> set B. ?t x = 3" by (simp add: tier_def A_def B_def)
  have c: "\<forall>x \<in> set C. ?t x = 4" by (auto simp add: tier_def A_def B_def C_def)
  have d: "\<forall>x \<in> set D. ?t x = 5" by (auto simp add: tier_def A_def B_def C_def D_def)
  have sa: "sorted (map ?t A)" using a by (rule sorted_map_const)
  have sb: "sorted (map ?t B)" using b by (rule sorted_map_const)
  have sc: "sorted (map ?t C)" using c by (rule sorted_map_const)
  have sd: "sorted (map ?t D)" using d by (rule sorted_map_const)
  have ab: "sorted (map ?t (A @ B))"
    by (rule sorted_map_append_between [OF sa sb, of 2]) (use a b in auto)
  have abc: "sorted (map ?t ((A @ B) @ C))"
    by (rule sorted_map_append_between [OF ab sc, of 3]) (use a b c in auto)
  have "sorted (map ?t (((A @ B) @ C) @ D))"
    by (rule sorted_map_append_between [OF abc sd, of 4]) (use a b c d in auto)
  then show ?thesis unfolding e .
qed

lemma tier_slice:
  "0 \<le> n \<Longrightarrow> sorted (map f xs) \<Longrightarrow> sorted (map f (slice_to n xs))"
  by (simp add: slice_to_def take_map [symmetric] sorted_wrt_take)

lemma three_candidates:
  assumes "set (get_class_candidates w) = {''PaidInCapital'', ''CapitalSurplus'', ''OwnersEquity''}"
  shows "get_class_candidates w = [''CapitalSurplus'', ''OwnersEquity'', ''PaidInCapital'']"
proof (rule sorted_distinct_set_unique)
  show "sorted (get_class_candidates w)" by (rule sorted_get_class_candidates)
  show "distinct (get_class_candidates w)" by (rule distinct_get_class_candidates)
  show "sorted [''CapitalSurplus'', ''OwnersEquity'', ''PaidInCapital'']" by simp
  show "distinct [''CapitalSurplus'', ''OwnersEquity'', ''PaidInCapital'']" by simp
  show "set (get_class_candidates w) = set [''CapitalSurplus'', ''OwnersEquity'', ''PaidInCapital'']"
    using assms by auto
qed

lemma paid_in_capit_exact:
  "[c \<leftarrow> [''CapitalSurplus'', ''OwnersEquity'', ''PaidInCapital'']. lower c = lower ''PaidInCapit''] = []"
  by code_simp

lemma paid_in_capit_substring:
  "substring_matches [''CapitalSurplus'', ''OwnersEquity'', ''PaidInCapital''] (lower ''PaidInCapit'')
     = [''PaidInCapital'']"
  by code_simp

text \<open>
  C3. The suggestions are in the order of the tiers: with the close matches \<open>close\<close> that
  \<open>difflib\<close> returned, the tiers of the suggested names (2 for a substring match, 3 for a
  close match that is no substring match, 4 for a character match that is neither, 5 for
  the rest) never decrease along the list. In particular, when the candidates are
  \<open>PaidInCapital\<close>, \<open>CapitalSurplus\<close> and \<open>OwnersEquity\<close>, the input \<open>PaidInCapit\<close> gives, for
  every similarity metric and every positive \<open>max_suggestions\<close>, a result of type
  \<open>suggestions\<close>, not \<open>exact\<close>, whose first suggestion is \<open>PaidInCapital\<close>, a substring match.
\<close>

theorem tier_order:
  "(\<forall>r close. get_class_suggestions ratio w s max_suggestions = Inr r \<and>
       get_close_matches ratio s (get_class_candidates w) (max_suggestions * 2) (6 / 10) = Inr close \<longrightarrow>
       sorted (map (tier (get_class_candidates w) (lower s) close) (suggestions r))) \<and>
   (set (get_class_candidates w) = {''PaidInCapital'', ''CapitalSurplus'', ''OwnersEquity''} \<and>
    0 < max_suggestions \<longrightarrow>
      (\<exists>r. get_class_suggestions ratio w ''PaidInCapit'' max_suggestions = Inr r \<and>
           type r = ''suggestions'' \<and> hd (suggestions r) = ''PaidInCapital'' \<and>
           ''PaidInCapital'' \<in> set (substring_matches (get_class_candidates w) (lower ''PaidInCapit''))))"
proof (intro conjI allI impI)
  fix r close
  let ?cs = "get_class_candidates w"
  assume h: "get_class_suggestions ratio w s max_suggestions = Inr r \<and>
       get_close_matches ratio s ?cs (max_suggestions * 2) (6 / 10) = Inr close"
  then have pos: "0 < max_suggestions" by (auto simp add: get_close_matches_def split: if_splits)
  from h have "suggestions r = [] \<or>
      suggestions r = slice_to max_suggestions (all_suggestions ?cs (lower s) close)"
    by (auto simp add: get_class_suggestions_def Let_def split: if_splits)
  then show "sorted (map (tier ?cs (lower s) close) (suggestions r))"
    using tier_slice [OF _ tier_all_suggestions, of max_suggestions ?cs "lower s" close] pos
    by auto
next
  let ?cs = "get_class_candidates w"
  assume h: "set ?cs = {''PaidInCapital'', ''CapitalSurplus'', ''OwnersEquity''} \<and> 0 < max_suggestions"
  then have cs: "?cs = [''CapitalSurplus'', ''OwnersEquity'', ''PaidInCapital'']"
    using three_candidates by blast
  from h obtain close where
    close: "get_close_matches ratio ''PaidInCapit'' ?cs (max_suggestions * 2) (6 / 10) = Inr close"
    using get_close_matches_returns [of "max_suggestions * 2" "6 / 10" ratio "''PaidInCapit''" ?cs]
    by auto
  obtain rest where all: "all_suggestions ?cs (lower ''PaidInCapit'') close = ''PaidInCapital'' # rest"
    unfolding cs all_suggestions_def paid_in_capit_substring
    by (simp add: extend_new_def)
  from h obtain k where k: "nat max_suggestions = Suc k" by (cases "nat max_suggestions") auto
  have sl: "slice_to max_suggestions (''PaidInCapital'' # rest) = ''PaidInCapital'' # take k rest"
    using h k by (simp add: slice_to_def)
  have "get_class_suggestions ratio w ''PaidInCapit'' max_suggestions =
      Inr \<lparr>type = ''suggestions'', match = None, suggestions = ''PaidInCapital'' # take k rest\<rparr>"
    unfolding get_class_suggestions_def Let_def
    using cs paid_in_capit_exact close all sl by simp
  moreover have "''PaidInCapital'' \<in> set (substring_matches ?cs (lower ''PaidInCapit''))"
    unfolding cs paid_in_capit_substring by simp
  ultimately show "\<exists>r. get_class_suggestions ratio w ''PaidInCapit'' max_suggestions = Inr r \<and>
           type r = ''suggestions'' \<and> hd (suggestions r) = ''PaidInCapital'' \<and>
           ''PaidInCapital'' \<in> set (substring_matches ?cs (lower ''PaidInCapit''))"
    by simp
qed

subsection \<open>Instances\<close>

theorem tier_order_witness:
  "get_class_suggestions sequence_ratio accounting_world ''Surplus'' 3 =
     Inr \<lparr>type = ''suggestions'', match = None,
          suggestions = [''CapitalSurplus'', ''ShareholdersEquity'', ''StockholdersEquity'']\<rparr> \<and>
   get_close_matches sequence_ratio ''Surplus'' (get_class_candidates accounting_world) (3 * 2) (6 / 10) =
     Inr [''CapitalSurplus''] \<and>
   map (tier (get_class_candidates accounting_world) (lower ''Surplus'') [''CapitalSurplus''])
     [''CapitalSurplus'', ''ShareholdersEquity'', ''StockholdersEquity''] = [2, 4, 4] \<and>
   sorted (map (tier (get_class_candidates accounting_world) (lower ''Surplus'') [''CapitalSurplus''])
     [''CapitalSurplus'', ''ShareholdersEquity'', ''StockholdersEquity'']) \<and>
   set (get_class_candidates equity_world) = {''PaidInCapital'', ''CapitalSurplus'', ''OwnersEquity''} \<and>
   (0::int) < 3 \<and>
   (\<exists>r. get_class_suggestions sequence_ratio equity_world ''PaidInCapit'' 3 = Inr r \<and>
        type r = ''suggestions'' \<and> hd (suggestions r) = ''PaidInCapital'')"
proof -
  have e: "get_class_suggestions sequence_ratio accounting_world ''Surplus'' 3 =
     Inr \<lparr>type = ''suggestions'', match = None,
          suggestions = [''CapitalSurplus'', ''ShareholdersEquity'', ''StockholdersEquity'']\<rparr>"
    by code_simp
  have c: "get_close_matches sequence_ratio ''Surplus'' (get_class_candidates accounting_world)
      (3 * 2) (6 / 10) = Inr [''CapitalSurplus'']"
    by code_simp
  have t: "map (tier (get_class_candidates accounting_world) (lower ''Surplus'') [''CapitalSurplus''])
     [''CapitalSurplus'', ''ShareholdersEquity'', ''StockholdersEquity''] = [2, 4, 4]"
    by code_simp
  have s: "set (get_class_candidates equity_world) =
      {''PaidInCapital'', ''CapitalSurplus'', ''OwnersEquity''}"
    unfolding candidates_equity_world by auto
  have p: "(0::int) < 3" by simp
  note th = tier_order [of sequence_ratio accounting_world "''Surplus''" 3]
  note th' = tier_order [of sequence_ratio equity_world _ 3]
  from th e c
  have "sorted (map (tier (get_class_candidates accounting_world) (lower ''Surplus'') [''CapitalSurplus''])
     (suggestions \<lparr>type = ''suggestions'', match = None,
          suggestions = [''CapitalSurplus'', ''ShareholdersEquity'', ''StockholdersEquity'']\<rparr>))"
    by blast
  then have so: "sorted (map (tier (get_class_candidates accounting_world) (lower ''Surplus'')
     [''CapitalSurplus'']) [''CapitalSurplus'', ''ShareholdersEquity'', ''StockholdersEquity''])"
    by (simp only: suggestion_result.select_convs)
  from th' s p
  have "\<exists>r. get_class_suggestions sequence_ratio equity_world ''PaidInCapit'' 3 = Inr r \<and>
        type r = ''suggestions'' \<and> hd (suggestions r) = ''PaidInCapital''"
    by blast
  with e c t so s p show ?thesis by blast
qed

section \<open>The best guess\<close>

lemma sorted_le_last:
  fixes ys :: "('a::linorder) list"
  shows "sorted ys \<Longrightarrow> x \<in> set ys \<Longrightarrow> x \<le> last ys"
  by (induction ys) auto

lemma last_sort_greatest:
  fixes xs :: "('a::linorder) list"
  assumes "xs \<noteq> []"
  shows "last (sort xs) \<in> set xs \<and> (\<forall>x \<in> set xs. x \<le> last (sort xs))"
proof -
  have ne: "sort xs \<noteq> []" using assms by (metis length_0_conv length_sort)
  have "last (sort xs) \<in> set (sort xs)" using ne by (rule last_in_set)
  moreover have "\<forall>x \<in> set (sort xs). x \<le> last (sort xs)"
    using sorted_le_last [of "sort xs"] by simp
  ultimately show ?thesis by simp
qed

lemma nlargest_one:
  fixes xs :: "('a::linorder) list"
  shows "nlargest (Suc 0) xs = (if xs = [] then [] else [last (sort xs)])"
proof (cases "xs = []")
  case True
  then show ?thesis by (simp add: nlargest_def)
next
  case False
  then have ne: "rev (sort xs) \<noteq> []" by (metis length_0_conv length_sort rev_is_Nil_conv)
  have "take (Suc 0) (rev (sort xs)) = [hd (rev (sort xs))]"
    using take_Suc [OF ne, of 0] by simp
  then show ?thesis using False by (simp add: nlargest_def hd_rev)
qed

lemma best_match_cases:
  fixes ratio :: "string \<Rightarrow> string \<Rightarrow> rat"
  shows "(\<exists>m. get_close_matches ratio s ps 1 (8 / 10) = Inr [m] \<and> m \<in> set ps \<and> ratio m s \<ge> 8 / 10 \<and>
          (\<forall>x \<in> set ps. (ratio x s, x) \<le> (ratio m s, m))) \<or>
         (get_close_matches ratio s ps 1 (8 / 10) = Inr [] \<and> (\<forall>x \<in> set ps. ratio x s < 8 / 10))"
proof -
  let ?sc = "[(ratio x s, x). x \<leftarrow> ps, ratio x s \<ge> 8 / 10]"
  have g: "get_close_matches ratio s ps 1 (8 / 10) = Inr (map snd (nlargest (Suc 0) ?sc))"
    by (simp add: get_close_matches_def)
  have mem: "p \<in> set ?sc \<longleftrightarrow> (\<exists>x \<in> set ps. p = (ratio x s, x) \<and> ratio x s \<ge> 8 / 10)" for p
    by auto
  show ?thesis
  proof (cases "?sc = []")
    case True
    then have emp: "set ?sc = {}" by (simp only: list.set)
    have "\<forall>x \<in> set ps. ratio x s < 8 / 10"
    proof (rule ballI, rule ccontr)
      fix x assume "x \<in> set ps" "\<not> ratio x s < 8 / 10"
      then have "(ratio x s, x) \<in> set ?sc" unfolding mem by auto
      then show False by (simp only: emp empty_iff)
    qed
    moreover have "get_close_matches ratio s ps 1 (8 / 10) = Inr []"
      unfolding g nlargest_one using True by simp
    ultimately show ?thesis by blast
  next
    case False
    define b where "b = last (sort ?sc)"
    from last_sort_greatest [OF False]
    have b: "b \<in> set ?sc" "\<forall>p \<in> set ?sc. p \<le> b" unfolding b_def by blast+
    from b(1) obtain m where m: "m \<in> set ps" "b = (ratio m s, m)" "ratio m s \<ge> 8 / 10"
      unfolding mem by blast
    have "(ratio x s, x) \<le> (ratio m s, m)" if "x \<in> set ps" for x
    proof (cases "ratio x s \<ge> 8 / 10")
      case True
      with that have "(ratio x s, x) \<in> set ?sc" unfolding mem by blast
      with b(2) m(2) show ?thesis by auto
    next
      case False
      with m(3) have "ratio x s < ratio m s" by simp
      then show ?thesis by (simp add: less_eq_prod_def)
    qed
    moreover have "nlargest (Suc 0) ?sc = [b]"
      unfolding nlargest_one b_def using False by (simp only: if_False)
    then have "get_close_matches ratio s ps 1 (8 / 10) = Inr [m]"
      unfolding g m(2) by (simp only: list.map snd_conv)
    ultimately show ?thesis using m by blast
  qed
qed

text \<open>
  C4, as amended. \<open>resolve_class_name_fuzzy\<close> raises no exception. When the result of the
  resolver for the same input is \<open>exact\<close>, it returns the exact match, which is in no
  suggestion list. When the result is \<open>suggestions\<close>, it returns either a single name of
  that suggestion list, whose similarity ratio to the input is at least 0.8 and whose pair
  of ratio and name is the greatest of the list, or no name, and then no suggestion reaches
  the ratio 0.8. When the result is \<open>none\<close>, it returns no name.
\<close>

theorem resolve_best_from_result:
  "\<exists>r. get_class_suggestions ratio w s 3 = Inr r \<and>
     (type r = ''exact'' \<longrightarrow> resolve_class_name_fuzzy ratio w s = Inr (match r)) \<and>
     (type r = ''suggestions'' \<longrightarrow>
        (\<exists>m. resolve_class_name_fuzzy ratio w s = Inr (Some m) \<and> m \<in> set (suggestions r) \<and>
             ratio m s \<ge> 8 / 10 \<and>
             (\<forall>x \<in> set (suggestions r). (ratio x s, x) \<le> (ratio m s, m))) \<or>
        (resolve_class_name_fuzzy ratio w s = Inr None \<and>
         (\<forall>x \<in> set (suggestions r). ratio x s < 8 / 10))) \<and>
     (type r = ''none'' \<longrightarrow> resolve_class_name_fuzzy ratio w s = Inr None)"
proof -
  obtain r where r: "get_class_suggestions ratio w s 3 = Inr r"
    using get_class_suggestions_returns [of 3 ratio w s] by auto
  have ex: "type r = ''exact'' \<Longrightarrow> resolve_class_name_fuzzy ratio w s = Inr (match r)"
    using r by (simp add: resolve_class_name_fuzzy_def)
  have no: "type r = ''none'' \<Longrightarrow> resolve_class_name_fuzzy ratio w s = Inr None"
    using r by (simp add: resolve_class_name_fuzzy_def)
  have su: "(\<exists>m. resolve_class_name_fuzzy ratio w s = Inr (Some m) \<and> m \<in> set (suggestions r) \<and>
             ratio m s \<ge> 8 / 10 \<and>
             (\<forall>x \<in> set (suggestions r). (ratio x s, x) \<le> (ratio m s, m))) \<or>
        (resolve_class_name_fuzzy ratio w s = Inr None \<and>
         (\<forall>x \<in> set (suggestions r). ratio x s < 8 / 10))" if t: "type r = ''suggestions''"
  proof (cases "suggestions r = []")
    case True
    then show ?thesis using r t by (simp add: resolve_class_name_fuzzy_def)
  next
    case False
    from best_match_cases [of ratio s "suggestions r"] show ?thesis
    proof (elim disjE exE conjE)
      fix m assume "get_close_matches ratio s (suggestions r) 1 (8 / 10) = Inr [m]"
        "m \<in> set (suggestions r)" "8 / 10 \<le> ratio m s"
        "\<forall>x \<in> set (suggestions r). (ratio x s, x) \<le> (ratio m s, m)"
      moreover from this(1) have "resolve_class_name_fuzzy ratio w s = Inr (Some m)"
        using r t False by (simp add: resolve_class_name_fuzzy_def)
      ultimately show ?thesis by blast
    next
      assume "get_close_matches ratio s (suggestions r) 1 (8 / 10) = Inr []"
        "\<forall>x \<in> set (suggestions r). ratio x s < 8 / 10"
      moreover from this(1) have "resolve_class_name_fuzzy ratio w s = Inr None"
        using r t False by (simp add: resolve_class_name_fuzzy_def)
      ultimately show ?thesis by blast
    qed
  qed
  from r ex no su show ?thesis by blast
qed

subsection \<open>Instances\<close>

text \<open>
  The claim C4 as it is stated fails on an exact match: the name returned is not in the
  suggestion list of the resolver, which is empty.
\<close>

theorem resolve_best_counterexample:
  "resolve_class_name_fuzzy sequence_ratio equity_world ''paidincapital'' = Inr (Some ''PaidInCapital'') \<and>
   get_class_suggestions sequence_ratio equity_world ''paidincapital'' 3 =
     Inr \<lparr>type = ''exact'', match = Some ''PaidInCapital'', suggestions = []\<rparr> \<and>
   ''PaidInCapital'' \<notin> set (suggestions \<lparr>type = ''exact'', match = Some ''PaidInCapital'', suggestions = []\<rparr>)"
  by code_simp

theorem resolve_best_from_result_witness:
  "get_class_suggestions sequence_ratio accounting_world ''ShareholderEquity'' 3 =
     Inr \<lparr>type = ''suggestions'', match = None,
          suggestions = [''ShareholdersEquity'', ''StockholdersEquity'']\<rparr> \<and>
   resolve_class_name_fuzzy sequence_ratio accounting_world ''ShareholderEquity'' =
     Inr (Some ''ShareholdersEquity'') \<and>
   8 / 10 \<le> sequence_ratio ''ShareholdersEquity'' ''ShareholderEquity'' \<and>
   (sequence_ratio ''StockholdersEquity'' ''ShareholderEquity'', ''StockholdersEquity'')
     \<le> (sequence_ratio ''ShareholdersEquity'' ''ShareholderEquity'', ''ShareholdersEquity'')"
proof -
  let ?r = "\<lparr>type = ''suggestions'', match = None,
          suggestions = [''ShareholdersEquity'', ''StockholdersEquity'']\<rparr>"
  have e: "get_class_suggestions sequence_ratio accounting_world ''ShareholderEquity'' 3 = Inr ?r"
    by code_simp
  have v: "resolve_class_name_fuzzy sequence_ratio accounting_world ''ShareholderEquity'' =
     Inr (Some ''ShareholdersEquity'')"
    by code_simp
  from resolve_best_from_result [of sequence_ratio accounting_world "''ShareholderEquity''"] e
  have "(\<exists>m. resolve_class_name_fuzzy sequence_ratio accounting_world ''ShareholderEquity'' =
            Inr (Some m) \<and> m \<in> set (suggestions ?r) \<and>
            8 / 10 \<le> sequence_ratio m ''ShareholderEquity'' \<and>
            (\<forall>x \<in> set (suggestions ?r).
               (sequence_ratio x ''ShareholderEquity'', x) \<le> (sequence_ratio m ''ShareholderEquity'', m))) \<or>
        (resolve_class_name_fuzzy sequence_ratio accounting_world ''ShareholderEquity'' = Inr None \<and>
         (\<forall>x \<in> set (suggestions ?r). sequence_ratio x ''ShareholderEquity'' < 8 / 10))"
    by (metis sum.inject(2) suggestion_result.select_convs(1))
  with v have "8 / 10 \<le> sequence_ratio ''ShareholdersEquity'' ''ShareholderEquity'' \<and>
     (\<forall>x \<in> set (suggestions ?r).
        (sequence_ratio x ''ShareholderEquity'', x)
          \<le> (sequence_ratio ''ShareholdersEquity'' ''ShareholderEquity'', ''ShareholdersEquity''))"
    by auto
  then have "8 / 10 \<le> sequence_ratio ''ShareholdersEquity'' ''ShareholderEquity'' \<and>
     (sequence_ratio ''StockholdersEquity'' ''ShareholderEquity'', ''StockholdersEquity'')
       \<le> (sequence_ratio ''ShareholdersEquity'' ''ShareholderEquity'', ''ShareholdersEquity'')"
    by (simp only: suggestion_result.select_convs list.set ball_simps insert_iff)
  with e v show ?thesis by blast
qed

section \<open>Properties of the executor\<close>








lemma sublist_prepend: "sublist s y \<Longrightarrow> sublist s (x @ y)"
  by (rule sublist_order.order.trans [OF _ sublist_append_leftI])

lemma sublist_join:
  "s \<in> set xs \<Longrightarrow> sublist (f s) (join sep (map f xs))"
proof (induction xs)
  case Nil
  then show ?case by simp
next
  case (Cons x xs)
  show ?case
  proof (cases xs)
    case Nil
    with Cons.prems show ?thesis by simp
  next
    case (Cons y ys)
    have j: "join sep (map f (x # xs)) = f x @ sep @ join sep (map f xs)"
      using Cons by simp
    show ?thesis
    proof (cases "s = x")
      case True
      then show ?thesis unfolding j by simp
    next
      case False
      with Cons.prems have "s \<in> set xs" by simp
      then have "sublist (f s) (join sep (map f xs))" by (rule Cons.IH)
      then have "sublist (f s) ((f x @ sep) @ join sep (map f xs))"
        by (rule sublist_prepend)
      then show ?thesis unfolding j by simp
    qed
  qed
qed



subsection \<open>Instances\<close>


section \<open>Properties of the planner\<close>

text \<open>
  The loop over a multi-step plan: when it returns, the results are those of the calls of
  the plan, one for each and in their order, whatever their texts are, a not-found message
  or another inline error as well as a success; it returns when every call returns; and
  the text of every result stands in the final response. A call that raises an exception
  is not covered: the exception leaves the loop.
\<close>

lemma run_steps_collects:
  "run_steps c steps results fa evs = Inr (rs, fa', evs') \<Longrightarrow>
     \<exists>new. rs = results @ new \<and>
       list_all2 (\<lambda>fc r. \<exists>calls. execute_single_function c fc = Inr (r, calls)) (step_calls steps) new"
proof (induction steps arbitrary: results fa evs)
  case Nil
  then show ?case by simp
next
  case (Cons st steps)
  show ?case
  proof (cases st)
    case (Call fc)
    with Cons.prems obtain r calls where e: "execute_single_function c fc = Inr (r, calls)"
      and k: "run_steps c steps (results @ [r]) fa (evs @ map (\<lambda>(f, args). Kb_call f args) calls)
          = Inr (rs, fa', evs')"
      by (auto split: sum.splits)
    from Cons.IH [OF k] obtain new where n: "rs = (results @ [r]) @ new"
      "list_all2 (\<lambda>fc r. \<exists>calls. execute_single_function c fc = Inr (r, calls)) (step_calls steps) new"
      by blast
    have "rs = results @ (r # new)" using n(1) by simp
    moreover have "list_all2 (\<lambda>fc r. \<exists>calls. execute_single_function c fc = Inr (r, calls))
        (step_calls (st # steps)) (r # new)"
      using Call e n(2) by simp
    ultimately show ?thesis by blast
  next
    case (Analysis instr)
    with Cons.prems Cons.IH show ?thesis by (auto simp add: Let_def)
  next
    case Other
    with Cons.prems Cons.IH show ?thesis by auto
  qed
qed

lemma run_steps_returns:
  "\<forall>fc \<in> set (step_calls steps). \<exists>r. execute_single_function c fc = Inr r \<Longrightarrow>
     \<exists>out. run_steps c steps results fa evs = Inr out"
proof (induction steps arbitrary: results fa evs)
  case Nil
  then show ?case by simp
next
  case (Cons st steps)
  show ?case
  proof (cases st)
    case (Call fc)
    with Cons.prems obtain r calls where e: "execute_single_function c fc = Inr (r, calls)"
      by fastforce
    from Cons.prems Call have "\<forall>fc \<in> set (step_calls steps). \<exists>r. execute_single_function c fc = Inr r"
      by simp
    from Cons.IH [OF this] show ?thesis using Call e by simp
  next
    case (Analysis instr)
    with Cons.prems Cons.IH show ?thesis by (simp add: Let_def)
  next
    case Other
    with Cons.prems Cons.IH show ?thesis by simp
  qed
qed

lemma sublist_join_member: "s \<in> set xs \<Longrightarrow> sublist s (join sep xs)"
  using sublist_join [of s xs "\<lambda>x. x" sep] by simp

lemma output_in_result_parts:
  "r \<in> set results \<Longrightarrow> output_text r \<in> set (result_parts i results)"
  by (induction results arbitrary: i) auto

lemma response_reports_results:
  assumes "r \<in> set results"
  shows "sublist (output_text r) (join nl (response_parts results fa))"
proof -
  have "output_text r \<in> set (response_parts results fa)"
    unfolding response_parts_def using output_in_result_parts [OF assms, of 1] by simp
  then show ?thesis by (rule sublist_join_member)
qed


subsection \<open>Instances\<close>

text \<open>
  C7. A plan whose first step calls \<open>get_superclasses\<close> without an argument: the call raises
  \<open>TypeError\<close>, which leaves the loop and the query, so the second step, which would return
  its result, is not executed and nothing is reported; \<open>explain_relationship\<close> without
  arguments returns an inline error text instead.
\<close>

theorem missing_argument_aborts_plan:
  "run_natural_language_query missing_argument_ctx ''compare PaidInCapital and OwnersEquity'' = Inl TypeError \<and>
   execute_single_function missing_argument_ctx \<lparr>func = ''get_superclasses'', arguments = Some []\<rparr>
     = Inl TypeError \<and>
   execute_single_function missing_argument_ctx \<lparr>func = ''get_subclasses'', arguments = Some [''PaidInCapital'']\<rparr>
     = Inr (\<lparr>fname = ''get_subclasses'', output_text = ''get_subclasses(PaidInCapital)''\<rparr>,
            [(''get_subclasses'', [''PaidInCapital''])]) \<and>
   execute_single_function missing_argument_ctx \<lparr>func = ''explain_relationship'', arguments = Some []\<rparr>
     = Inr (\<lparr>fname = ''explain_relationship'',
              output_text = cross_mark @ '' explain_relationship requires two class names''\<rparr>, [])"
  by code_simp


text \<open>
  A plan of two steps whose first name resolves and whose second does not: both results
  are collected, the second one being the not-found message, after one call to the
  knowledge base.
\<close>

lemma two_step_plan_reports_both:
  "run_steps loaded_ctx
     [Call \<lparr>func = ''get_superclasses'', arguments = Some [''paidincapital'']\<rparr>,
      Call \<lparr>func = ''get_subclasses'', arguments = Some [''xyz123nonexistent'']\<rparr>] [] None [] =
   Inr ([\<lparr>fname = ''get_superclasses'', output_text = ''get_superclasses(PaidInCapital)''\<rparr>,
         \<lparr>fname = ''get_subclasses'',
          output_text = not_found_message ''xyz123nonexistent''
            (Some (cross_mark @ '' No similar classes found for '' @ apos @ ''xyz123nonexistent''
               @ apos @ ''. Try '' @ apos @ ''list classes'' @ apos
               @ '' to see available options.''))\<rparr>],
        None, [Kb_call ''get_superclasses'' [''PaidInCapital'']])"
  by code_simp

section \<open>Properties of the knowledge-base operations\<close>

text \<open>
  With no ontology loaded, the functions guarded by \<open>onto is None\<close> and the statistics
  return the message that no ontology is loaded. The keyword search has no such guard and
  never returns that message.
\<close>

lemma guarded_query_not_loaded:
  "onto c = None \<Longrightarrow> guarded_query c f args = Inr no_ontology_message"
  by (simp add: guarded_query_def)

lemma get_ontology_stats_not_loaded:
  "ontologies c = [] \<Longrightarrow> get_ontology_stats c = no_ontology_message"
  by (simp add: get_ontology_stats_def)

lemma join_Cons: "join sep (x # xs) = (if xs = [] then x else x @ sep @ join sep xs)"
  by (cases xs) auto

lemma search_never_precondition_message:
  "search_classes_by_keyword c keyword \<noteq> no_ontology_message"
  by (simp add: search_classes_by_keyword_def Let_def no_ontology_message_def join_Cons
      cross_mark_def magnifier_def)

subsection \<open>Instances\<close>

text \<open>
  C9. With nothing loaded, the keyword search returns that no classes were found, not the
  message that no ontology is loaded, which a guarded function and the statistics return.
\<close>

theorem keyword_search_not_loaded:
  "onto not_loaded_ctx = None \<and> ontologies not_loaded_ctx = [] \<and>
   search_classes_by_keyword not_loaded_ctx ''equity'' =
     cross_mark @ '' No classes found containing '' @ apos @ ''equity'' @ apos \<and>
   search_classes_by_keyword not_loaded_ctx ''equity'' \<noteq> no_ontology_message \<and>
   guarded_query not_loaded_ctx ''get_superclasses'' [''OwnersEquity''] = Inr no_ontology_message \<and>
   get_ontology_stats not_loaded_ctx = no_ontology_message"
  by code_simp


end
